theory Spec2Isabelle
  imports Main "HOL-Library.Option_ord"
begin

section \<open>Outcomes of a call\<close>

text \<open>
  A call of the C++ code either returns, or runs into undefined behaviour (a null or
  dangling pointer is dereferenced, a vector is indexed past its end), or never returns.
  The three are kept apart: \<open>Done\<close> carries the returned value and the state after the
  call, \<open>Fault\<close> names the undefined behaviour, \<open>Diverges\<close> is a loop that runs forever.
\<close>

datatype fault = NullPointer | Dangling | OutOfRange

datatype 'a result = Done 'a | Fault fault | Diverges

fun andThen :: "'a result \<Rightarrow> ('a \<Rightarrow> 'b result) \<Rightarrow> 'b result" where
  "andThen (Done x) f = f x"
| "andThen (Fault e) f = Fault e"
| "andThen Diverges f = Diverges"

text \<open>\<open>vec_at\<close> is \<open>v[i]\<close> on a \<open>std::vector\<close>, \<open>vec_set\<close> is \<open>v[i] = x\<close>.\<close>

definition vec_at :: "'a list \<Rightarrow> nat \<Rightarrow> 'a result" where
  "vec_at v i = (if i < length v then Done (v ! i) else Fault OutOfRange)"

definition vec_set :: "'a list \<Rightarrow> nat \<Rightarrow> 'a \<Rightarrow> 'a list result" where
  "vec_set v i x = (if i < length v then Done (v[i := x]) else Fault OutOfRange)"

section \<open>\<open>std::map\<close>\<close>

text \<open>
  A \<open>std::map<K, V>\<close> is a list of pairs kept in ascending key order, one pair per key:
  the order is the order in which \<open>split\<close> walks a bucket.
  \<open>map_insert\<close> is \<open>insert({k, v})\<close> (it keeps the old pair of a key already there),
  \<open>map_subscript\<close> is \<open>operator[]\<close> used as an rvalue (it adds a value-initialised
  entry for an absent key), \<open>map_assign\<close> is \<open>m[k] = v\<close>, \<open>map_erase\<close> is \<open>erase(k)\<close>
  with the number of erased pairs.
\<close>

fun map_insert :: "'k::linorder \<Rightarrow> 'v \<Rightarrow> ('k \<times> 'v) list \<Rightarrow> ('k \<times> 'v) list" where
  "map_insert k v [] = [(k, v)]"
| "map_insert k v ((k', v') # m) =
     (if k < k' then (k, v) # (k', v') # m
      else if k = k' then (k', v') # m
      else (k', v') # map_insert k v m)"

fun map_assign :: "'k::linorder \<Rightarrow> 'v \<Rightarrow> ('k \<times> 'v) list \<Rightarrow> ('k \<times> 'v) list" where
  "map_assign k v [] = [(k, v)]"
| "map_assign k v ((k', v') # m) =
     (if k < k' then (k, v) # (k', v') # m
      else if k = k' then (k', v) # m
      else (k', v') # map_assign k v m)"

definition map_subscript :: "'v \<Rightarrow> ('k::linorder \<times> 'v) list \<Rightarrow> 'k \<Rightarrow> 'v \<times> ('k \<times> 'v) list" where
  "map_subscript dflt m k =
     (case map_of m k of
        Some v \<Rightarrow> (v, m)
      | None \<Rightarrow> (dflt, map_insert k dflt m))"

fun map_erase :: "'k \<Rightarrow> ('k \<times> 'v) list \<Rightarrow> nat \<times> ('k \<times> 'v) list" where
  "map_erase k [] = (0, [])"
| "map_erase k ((k', v') # m) =
     (if k = k' then (1, m)
      else (fst (map_erase k m), (k', v') # snd (map_erase k m)))"

section \<open>The extendible hash (\<open>extendible_hash.h\<close>, \<open>extendible_hash.cpp\<close>)\<close>

text \<open>
  A bucket is shared by the directory slots that point to it (\<open>std::shared_ptr<Bucket>\<close>),
  so the buckets live in a store, \<open>bucket_heap\<close>, addressed by position, and a directory
  slot holds \<open>Some address\<close> or \<open>None\<close> for the null pointer. A bucket is never freed in the
  model: one that no slot points to any more cannot be reached.

  \<open>HashKey\<close> is \<open>std::hash<K>\<close>, which the class takes from the key type, and
  \<open>value_init\<close> is the value-initialised \<open>V\<close>; both are fields of the table here.
  The hash value (\<open>size_t\<close>) and the depths (\<open>int\<close>) are natural numbers: depths only
  grow from 0, and for depths below 31 the shifts \<open>1 << d\<close> of the source are exact, so
  \<open>h & ((1 << d) - 1)\<close> is \<open>h mod 2 ^ d\<close> and \<open>h & (1 << d)\<close> is non-zero exactly when
  \<open>h div 2 ^ d\<close> is odd. \<open>pairCount\<close> is a \<open>size_t\<close> and wraps at \<open>2 ^ 64\<close>.
\<close>

record ('k, 'v) Bucket =
  hashItems :: "('k \<times> 'v) list"
  b_id :: nat
  localDepth :: nat

record ('k, 'v) ExtendibleHash =
  HashKey :: "'k \<Rightarrow> nat"
  value_init :: 'v
  bucketSize :: nat
  bucketCount :: int
  pairCount :: nat
  globalDepth :: nat
  buckets :: "nat option list"
  bucket_heap :: "('k, 'v) Bucket list"

definition new_ExtendibleHash :: "('k \<Rightarrow> nat) \<Rightarrow> 'v \<Rightarrow> nat \<Rightarrow> ('k, 'v) ExtendibleHash" where
  "new_ExtendibleHash h dflt sz =
     \<lparr>HashKey = h, value_init = dflt, bucketSize = sz, bucketCount = 1, pairCount = 0,
      globalDepth = 0, buckets = [Some 0],
      bucket_heap = [\<lparr>hashItems = [], b_id = 0, localDepth = 0\<rparr>]\<rparr>"

definition GetGlobalDepth :: "('k, 'v) ExtendibleHash \<Rightarrow> int" where
  "GetGlobalDepth t = int (globalDepth t)"

definition GetNumBuckets :: "('k, 'v) ExtendibleHash \<Rightarrow> int" where
  "GetNumBuckets t = bucketCount t"

text \<open>\<open>deref\<close> follows a non-null bucket pointer, \<open>store\<close> writes through it.\<close>

definition deref :: "('k, 'v) ExtendibleHash \<Rightarrow> nat \<Rightarrow> ('k, 'v) Bucket result" where
  "deref t a = (if a < length (bucket_heap t) then Done (bucket_heap t ! a) else Fault Dangling)"

definition store :: "('k, 'v) ExtendibleHash \<Rightarrow> nat \<Rightarrow> ('k, 'v) Bucket \<Rightarrow> ('k, 'v) ExtendibleHash" where
  "store t a b = t\<lparr>bucket_heap := (bucket_heap t)[a := b]\<rparr>"

definition GetLocalDepth :: "('k, 'v) ExtendibleHash \<Rightarrow> nat \<Rightarrow> int result" where
  "GetLocalDepth t bucket_id =
     andThen (vec_at (buckets t) bucket_id) (\<lambda>p.
       case p of
         None \<Rightarrow> Done (- 1)
       | Some a \<Rightarrow> andThen (deref t a) (\<lambda>b. Done (int (localDepth b))))"

text \<open>
  \<open>Find\<close> returns the flag, the content of the out-parameter \<open>value\<close> after the call and
  the table after the call.
\<close>

definition Find ::
  "('k::linorder, 'v) ExtendibleHash \<Rightarrow> 'k \<Rightarrow> 'v \<Rightarrow> (bool \<times> 'v \<times> ('k, 'v) ExtendibleHash) result" where
  "Find t key val =
     (let idx = HashKey t key mod 2 ^ globalDepth t in
      andThen (vec_at (buckets t) idx) (\<lambda>p.
        case p of
          None \<Rightarrow> Done (False, val, t)
        | Some a \<Rightarrow>
            andThen (deref t a) (\<lambda>b.
              if map_of (hashItems b) key \<noteq> None then
                (let (v, items) = map_subscript (value_init t) (hashItems b) key
                 in Done (True, v, store t a (b\<lparr>hashItems := items\<rparr>)))
              else Done (False, val, t))))"

definition Remove ::
  "('k::linorder, 'v) ExtendibleHash \<Rightarrow> 'k \<Rightarrow> (bool \<times> ('k, 'v) ExtendibleHash) result" where
  "Remove t key =
     (let idx = HashKey t key mod 2 ^ globalDepth t in
      andThen (vec_at (buckets t) idx) (\<lambda>p.
        case p of
          None \<Rightarrow> Done (False, t)
        | Some a \<Rightarrow>
            andThen (deref t a) (\<lambda>b.
              let (cnt, items) = map_erase key (hashItems b);
                  t1 = store t a (b\<lparr>hashItems := items\<rparr>);
                  t2 = t1\<lparr>pairCount := (pairCount t1 + 2 ^ 64 - cnt) mod 2 ^ 64\<rparr>
              in Done (cnt \<noteq> 0, t2))))"

subsection \<open>\<open>split\<close>\<close>

text \<open>
  \<open>split_pass\<close> is the \<open>for\<close> loop of \<open>split\<close> over the entries of \<open>b\<close> at its new local
  depth \<open>d\<close>: an entry whose hash has bit \<open>d - 1\<close> set moves to \<open>res\<close> and sets \<open>res->id\<close>,
  the others stay. It returns the entries left in \<open>b\<close> and \<open>res\<close>.
\<close>

fun split_pass ::
  "('k::linorder \<Rightarrow> nat) \<Rightarrow> nat \<Rightarrow> ('k \<times> 'v) list \<Rightarrow> ('k, 'v) Bucket
     \<Rightarrow> ('k \<times> 'v) list \<times> ('k, 'v) Bucket" where
  "split_pass h d [] res = ([], res)"
| "split_pass h d ((k, v) # its) res =
     (if odd (h k div 2 ^ (d - 1)) then
        split_pass h d its
          (res\<lparr>hashItems := map_insert k v (hashItems res), b_id := h k mod 2 ^ d\<rparr>)
      else (case split_pass h d its res of (stay, res') \<Rightarrow> ((k, v) # stay, res')))"

text \<open>One turn of the \<open>while\<close> loop of \<open>split\<close>.\<close>

definition split_turn ::
  "('k::linorder \<Rightarrow> nat) \<Rightarrow> ('k, 'v) Bucket \<Rightarrow> ('k, 'v) Bucket
     \<Rightarrow> ('k, 'v) Bucket \<times> ('k, 'v) Bucket" where
  "split_turn h b res =
     (let b1 = b\<lparr>localDepth := localDepth b + 1\<rparr>;
          res1 = res\<lparr>localDepth := localDepth res + 1\<rparr>;
          (stay, res2) = split_pass h (localDepth b1) (hashItems b1) res1;
          b2 = b1\<lparr>hashItems := stay\<rparr>
      in if hashItems b2 = []
         then (b2\<lparr>hashItems := hashItems res2, b_id := b_id res2\<rparr>, res2\<lparr>hashItems := []\<rparr>)
         else (b2, res2))"

text \<open>
  The \<open>while\<close> loop itself. It has no bound in the source: when no bit separates the
  entries of the bucket it runs forever, which is the value \<open>None\<close>.
\<close>

partial_function (option) split_loop ::
  "('k::linorder \<Rightarrow> nat) \<Rightarrow> ('k, 'v) Bucket \<Rightarrow> ('k, 'v) Bucket
     \<Rightarrow> (('k, 'v) Bucket \<times> ('k, 'v) Bucket) option" where
  "split_loop h b res =
     (if hashItems res = []
      then split_loop h (fst (split_turn h b res)) (snd (split_turn h b res))
      else Some (b, res))"

declare split_loop.simps [code]

text \<open>
  \<open>split\<close> on the bucket at address \<open>a\<close>: the new bucket gets the next free address; the
  result is the pointer to it (never null) and the table after the call.
\<close>

definition split ::
  "('k::linorder, 'v) ExtendibleHash \<Rightarrow> nat \<Rightarrow> (nat option \<times> ('k, 'v) ExtendibleHash) result" where
  "split t a =
     andThen (deref t a) (\<lambda>b.
       let r = length (bucket_heap t);
           res = \<lparr>hashItems = [], b_id = 0, localDepth = localDepth b\<rparr>
       in case split_loop (HashKey t) b res of
            None \<Rightarrow> Diverges
          | Some (b', res') \<Rightarrow>
              Done (Some r,
                t\<lparr>bucket_heap := (bucket_heap t)[a := b'] @ [res'],
                  bucketCount := bucketCount t + 1\<rparr>))"

subsection \<open>\<open>Insert\<close>\<close>

text \<open>
  \<open>stride_assign d j p dir\<close> is the loop
  \<open>for (; j < buckets.size(); j += 1 << d) buckets[j] = p\<close>.
\<close>

function stride_assign :: "nat \<Rightarrow> nat \<Rightarrow> nat option \<Rightarrow> nat option list \<Rightarrow> nat option list" where
  "stride_assign d j p dir =
     (if j < length dir then stride_assign d (j + 2 ^ d) p (dir[j := p]) else dir)"
  by pat_completeness auto
termination
proof (relation "measure (\<lambda>(d, j, p, dir). length dir - j)")
  fix d j :: nat and p :: "nat option" and dir :: "nat option list"
  assume "j < length dir"
  moreover have "(0::nat) < 2 ^ d" by simp
  ultimately have "length dir - (j + 2 ^ d) < length dir - j" by linarith
  then show "((d, j + 2 ^ d, p, dir[j := p]), (d, j, p, dir))
               \<in> measure (\<lambda>(d, j, p, dir). length dir - j)" by simp
qed simp

text \<open>
  The body of the loop over the old directory, \<open>for (i = 0; i < size; i++)\<close>, of the
  branch of \<open>Insert\<close> that grows the directory, and the loop over the indices \<open>is\<close>.
\<close>

definition regrow_slot ::
  "('k, 'v) ExtendibleHash \<Rightarrow> nat \<Rightarrow> ('k, 'v) ExtendibleHash result" where
  "regrow_slot t i =
     andThen (vec_at (buckets t) i) (\<lambda>p.
       case p of
         None \<Rightarrow> Done t
       | Some a \<Rightarrow>
           andThen (deref t a) (\<lambda>b.
             if i < b_id b then Done (t\<lparr>buckets := (buckets t)[i := None]\<rparr>)
             else Done (t\<lparr>buckets :=
                    stride_assign (localDepth b) (i + 2 ^ localDepth b) p (buckets t)\<rparr>)))"

fun regrow :: "('k, 'v) ExtendibleHash \<Rightarrow> nat list \<Rightarrow> ('k, 'v) ExtendibleHash result" where
  "regrow t [] = Done t"
| "regrow t (i # is) = andThen (regrow_slot t i) (\<lambda>t'. regrow t' is)"

text \<open>\<open>buckets[b->id] = b\<close> for the bucket \<open>b\<close> at address \<open>a\<close>.\<close>

definition place ::
  "('k, 'v) ExtendibleHash \<Rightarrow> nat \<Rightarrow> ('k, 'v) ExtendibleHash result" where
  "place t a =
     andThen (deref t a) (\<lambda>b.
       andThen (vec_set (buckets t) (b_id b) (Some a)) (\<lambda>dir. Done (t\<lparr>buckets := dir\<rparr>)))"

text \<open>
  The part of \<open>Insert\<close> after \<open>split\<close> returned: \<open>a\<close> is \<open>tmpBucket\<close>, \<open>r\<close> is \<open>newBucket\<close>.
\<close>

definition relink ::
  "('k, 'v) ExtendibleHash \<Rightarrow> nat \<Rightarrow> nat \<Rightarrow> nat \<Rightarrow> nat \<Rightarrow> ('k, 'v) ExtendibleHash result" where
  "relink t a r oldIndex oldDepth =
     andThen (deref t a) (\<lambda>tmp.
       if localDepth tmp > globalDepth t then
         (let sz = length (buckets t);
              factor = 2 ^ (localDepth tmp - globalDepth t);
              t1 = t\<lparr>globalDepth := localDepth tmp\<rparr>;
              t2 = t1\<lparr>buckets := buckets t1 @ replicate (sz * factor - sz) None\<rparr>
          in andThen (place t2 a) (\<lambda>t3.
               andThen (place t3 r) (\<lambda>t4. regrow t4 [0..<sz])))
       else
         (let t1 = t\<lparr>buckets := stride_assign oldDepth oldIndex None (buckets t)\<rparr>
          in andThen (place t1 a) (\<lambda>t2.
               andThen (place t2 r) (\<lambda>t3.
                 andThen (deref t3 a) (\<lambda>tmp3.
                   andThen (deref t3 r) (\<lambda>new3.
                     let d = localDepth tmp3;
                         dir1 = stride_assign d (b_id tmp3 + 2 ^ d) (Some a) (buckets t3);
                         dir2 = stride_assign d (b_id new3 + 2 ^ d) (Some r) dir1
                     in Done (t3\<lparr>buckets := dir2\<rparr>)))))))"

definition Insert ::
  "('k::linorder, 'v) ExtendibleHash \<Rightarrow> 'k \<Rightarrow> 'v \<Rightarrow> ('k, 'v) ExtendibleHash result" where
  "Insert t key val =
     (let bucket_id = HashKey t key mod 2 ^ globalDepth t in
      andThen (vec_at (buckets t) bucket_id) (\<lambda>p.
        let (a, t1) =
              (case p of
                 Some a \<Rightarrow> (a, t)
               | None \<Rightarrow>
                   (length (bucket_heap t),
                    t\<lparr>buckets := (buckets t)[bucket_id := Some (length (bucket_heap t))],
                      bucket_heap := bucket_heap t @
                        [\<lparr>hashItems = [], b_id = bucket_id, localDepth = globalDepth t\<rparr>],
                      bucketCount := bucketCount t + 1\<rparr>))
        in andThen (deref t1 a) (\<lambda>tmp.
             if map_of (hashItems tmp) key \<noteq> None then
               Done (store t1 a (tmp\<lparr>hashItems := map_assign key val (hashItems tmp)\<rparr>))
             else
               (let tmp1 = tmp\<lparr>hashItems := map_insert key val (hashItems tmp)\<rparr>;
                    t2 = (store t1 a tmp1)\<lparr>pairCount := (pairCount t1 + 1) mod 2 ^ 64\<rparr>
                in if length (hashItems tmp1) > bucketSize t2 then
                     (let oldIndex = b_id tmp1; oldDepth = localDepth tmp1
                      in andThen (split t2 a) (\<lambda>(newBucket, t3).
                           case newBucket of
                             None \<Rightarrow>
                               andThen (deref t3 a) (\<lambda>tmp3.
                                 Done (store t3 a (tmp3\<lparr>localDepth := oldDepth\<rparr>)))
                           | Some r \<Rightarrow> relink t3 a r oldIndex oldDepth))
                   else Done t2))))"

section \<open>The LRU replacer (\<open>lru_replacer.cpp\<close>)\<close>

text \<open>
  Modelled from the spec: the list node and the members of \<open>LRUReplacer\<close>, which
  \<open>lru_replacer.h\<close> declares and which is not among the sources. The spec has a
  doubly-linked list with a sentinel head and a side index from a value to its list node;
  the code uses the node through \<open>data\<close>, \<open>pre\<close>, \<open>next\<close> and the constructor
  \<open>node(value, pre)\<close>, and the index through \<open>find\<close>, \<open>emplace\<close>, \<open>erase\<close> and \<open>size\<close>,
  those of \<open>std::map\<close>. A new node has no successor. The field \<open>next\<close> is \<open>nxt\<close> here,
  \<open>map\<close> is \<open>map'\<close> and \<open>size\<close> is \<open>size'\<close>.

  Nodes are reached through raw pointers, so they live in a store, \<open>nodes\<close>, addressed by
  position; \<open>delete\<close> empties the position, and a pointer to it dangles.
\<close>

record 'a node =
  data :: 'a
  pre :: "nat option"
  nxt :: "nat option"

record 'a LRUReplacer =
  head :: "nat option"
  tail :: "nat option"
  map' :: "('a \<times> nat option) list"
  size' :: nat
  nodes :: "'a node option list"

text \<open>\<open>dflt\<close> is the value-initialised \<open>T\<close> that \<open>new node()\<close> gives the sentinel.\<close>

definition new_LRUReplacer :: "'a \<Rightarrow> 'a LRUReplacer" where
  "new_LRUReplacer dflt =
     \<lparr>head = Some 0, tail = Some 0, map' = [], size' = 0,
      nodes = [Some \<lparr>data = dflt, pre = None, nxt = None\<rparr>]\<rparr>"

definition node_at :: "'a LRUReplacer \<Rightarrow> nat option \<Rightarrow> 'a node result" where
  "node_at l p =
     (case p of
        None \<Rightarrow> Fault NullPointer
      | Some a \<Rightarrow>
          if a < length (nodes l) then
            (case nodes l ! a of None \<Rightarrow> Fault Dangling | Some n \<Rightarrow> Done n)
          else Fault Dangling)"

text \<open>\<open>p->pre = q\<close> and \<open>p->next = q\<close>.\<close>

definition set_pre :: "'a LRUReplacer \<Rightarrow> nat option \<Rightarrow> nat option \<Rightarrow> 'a LRUReplacer result" where
  "set_pre l p q =
     andThen (node_at l p) (\<lambda>n. Done (l\<lparr>nodes := (nodes l)[the p := Some (n\<lparr>pre := q\<rparr>)]\<rparr>))"

definition set_nxt :: "'a LRUReplacer \<Rightarrow> nat option \<Rightarrow> nat option \<Rightarrow> 'a LRUReplacer result" where
  "set_nxt l p q =
     andThen (node_at l p) (\<lambda>n. Done (l\<lparr>nodes := (nodes l)[the p := Some (n\<lparr>nxt := q\<rparr>)]\<rparr>))"

text \<open>\<open>delete p\<close>: nothing for the null pointer.\<close>

definition delete_node :: "'a LRUReplacer \<Rightarrow> nat option \<Rightarrow> 'a LRUReplacer result" where
  "delete_node l p =
     (case p of
        None \<Rightarrow> Done l
      | Some a \<Rightarrow> andThen (node_at l p) (\<lambda>n. Done (l\<lparr>nodes := (nodes l)[a := None]\<rparr>)))"

text \<open>
  The four lines that take the node of \<open>it->second\<close> out of the list, the same in
  \<open>Insert\<close> and \<open>Erase\<close>; the result is \<open>cur\<close> and the replacer after them.
\<close>

definition unlink :: "'a LRUReplacer \<Rightarrow> nat option \<Rightarrow> (nat option \<times> 'a LRUReplacer) result" where
  "unlink l it =
     andThen (node_at l it) (\<lambda>n.
       let pre0 = pre n in
       andThen (node_at l pre0) (\<lambda>pn.
         let cur = nxt pn in
         andThen (node_at l cur) (\<lambda>cn.
           andThen (set_nxt l pre0 (nxt cn)) (\<lambda>l1.
             andThen (node_at l1 pre0) (\<lambda>pn1.
               andThen (set_pre l1 (nxt pn1) pre0) (\<lambda>l2. Done (cur, l2)))))))"

definition LRU_Insert :: "'a::linorder LRUReplacer \<Rightarrow> 'a \<Rightarrow> 'a LRUReplacer result" where
  "LRU_Insert l val =
     (case map_of (map' l) val of
        Some it \<Rightarrow>
          andThen (unlink l it) (\<lambda>(cur, l2).
            andThen (set_pre l2 cur (tail l2)) (\<lambda>l3.
              andThen (set_nxt l3 (tail l3) cur) (\<lambda>l4.
                andThen (node_at l4 (tail l4)) (\<lambda>tn. Done (l4\<lparr>tail := nxt tn\<rparr>)))))
      | None \<Rightarrow>
          (let a = length (nodes l);
               l1 = l\<lparr>nodes := nodes l @ [Some \<lparr>data = val, pre = tail l, nxt = None\<rparr>]\<rparr>
           in andThen (set_nxt l1 (tail l1) (Some a)) (\<lambda>l2.
                andThen (node_at l2 (tail l2)) (\<lambda>tn.
                  let l3 = l2\<lparr>tail := nxt tn\<rparr>
                  in Done (l3\<lparr>map' := map_insert val (tail l3) (map' l3),
                              size' := (size' l3 + 1) mod 2 ^ 64\<rparr>)))))"

text \<open>
  \<open>Victim\<close> returns the flag, the content of the out-parameter \<open>value\<close> after the call and
  the replacer after the call.
\<close>

definition Victim :: "'a::linorder LRUReplacer \<Rightarrow> 'a \<Rightarrow> (bool \<times> 'a \<times> 'a LRUReplacer) result" where
  "Victim l val =
     (if size' l = 0 then Done (False, val, l)
      else
        andThen (node_at l (head l)) (\<lambda>hn.
          andThen (node_at l (nxt hn)) (\<lambda>fn.
            let val1 = data fn in
            andThen (set_nxt l (head l) (nxt fn)) (\<lambda>l1.
              andThen (node_at l1 (head l1)) (\<lambda>hn1.
                andThen (if nxt hn1 \<noteq> None then set_pre l1 (nxt hn1) (head l1) else Done l1) (\<lambda>l2.
                  let l3 = l2\<lparr>map' := snd (map_erase val1 (map' l2))\<rparr>;
                      l4 = l3\<lparr>size' := (size' l3 + 2 ^ 64 - 1) mod 2 ^ 64\<rparr>;
                      l5 = (if size' l4 = 0 then l4\<lparr>tail := head l4\<rparr> else l4)
                  in Done (True, val1, l5)))))))"

definition Erase :: "'a::linorder LRUReplacer \<Rightarrow> 'a \<Rightarrow> (bool \<times> 'a LRUReplacer) result" where
  "Erase l val =
     (case map_of (map' l) val of
        Some it \<Rightarrow>
          andThen
            (if it \<noteq> tail l then andThen (unlink l it) (\<lambda>(cur, l2). Done l2)
             else
               andThen (node_at l (tail l)) (\<lambda>tn.
                 let l1 = l\<lparr>tail := pre tn\<rparr> in
                 andThen (node_at l1 (tail l1)) (\<lambda>tn1. delete_node l1 (nxt tn1))))
            (\<lambda>l2.
               let l3 = l2\<lparr>map' := snd (map_erase val (map' l2))\<rparr>;
                   l4 = l3\<lparr>size' := (size' l3 + 2 ^ 64 - 1) mod 2 ^ 64\<rparr>;
                   l5 = (if size' l4 = 0 then l4\<lparr>tail := head l4\<rparr> else l4)
               in Done (True, l5))
      | None \<Rightarrow> Done (False, l))"

definition Size :: "'a LRUReplacer \<Rightarrow> nat" where
  "Size l = length (map' l)"

section \<open>The buffer pool manager (\<open>buffer_pool_manager.cpp\<close>)\<close>

subsection \<open>Pages and the disk manager\<close>

text \<open>
  Modelled from the spec: the page frame of \<open>page.h\<close>, which is not among the sources.
  The spec has a passive record of a fixed-size byte buffer, the current page id (the
  sentinel when unoccupied), a pin count and a dirty flag; \<open>ResetMemory\<close> zeroes the
  buffer. \<open>PAGE_SIZE\<close> is the length of the buffer a frame is created with. The members
  \<open>data_\<close>, \<open>page_id_\<close>, \<open>pin_count_\<close> and \<open>is_dirty_\<close> end in a prime here.
\<close>

record Page =
  data' :: "char list"
  page_id' :: int
  pin_count' :: int
  is_dirty' :: bool

text \<open>
  Modelled from the spec: the reserved sentinel "no page" of \<open>config.h\<close>, which is not
  among the sources; no theorem below depends on its value.
\<close>

definition INVALID_PAGE_ID :: int where
  "INVALID_PAGE_ID = - 1"

definition new_Page :: "nat \<Rightarrow> Page" where
  "new_Page page_size =
     \<lparr>data' = replicate page_size (CHR 0x00), page_id' = INVALID_PAGE_ID,
      pin_count' = 0, is_dirty' = False\<rparr>"

definition ResetMemory :: "Page \<Rightarrow> Page" where
  "ResetMemory pg = pg\<lparr>data' := replicate (length (data' pg)) (CHR 0x00)\<rparr>"

definition GetData :: "Page \<Rightarrow> char list" where
  "GetData pg = data' pg"

definition GetPinCount :: "Page \<Rightarrow> int" where
  "GetPinCount pg = pin_count' pg"

text \<open>
  Modelled from the spec: the disk manager, a collaborator outside the sources with the
  four operations \<open>AllocatePage\<close> (returns an unused identifier), \<open>DeallocatePage\<close>,
  \<open>ReadPage\<close> (fills the buffer) and \<open>WritePage\<close>. The model keeps the bytes stored under
  each page id, the next unused identifier and, in \<open>calls\<close>, the calls it received in
  order.
\<close>

datatype disk_call =
  Allocated int | Deallocated int | Read_from int | Written int "char list"

record DiskManager =
  disk_pages :: "int \<Rightarrow> char list"
  next_page_id :: int
  calls :: "disk_call list"

definition AllocatePage :: "DiskManager \<Rightarrow> int \<times> DiskManager" where
  "AllocatePage d =
     (next_page_id d,
      d\<lparr>next_page_id := next_page_id d + 1, calls := calls d @ [Allocated (next_page_id d)]\<rparr>)"

definition DeallocatePage :: "DiskManager \<Rightarrow> int \<Rightarrow> DiskManager" where
  "DeallocatePage d page_id = d\<lparr>calls := calls d @ [Deallocated page_id]\<rparr>"

definition ReadPage :: "DiskManager \<Rightarrow> int \<Rightarrow> char list \<times> DiskManager" where
  "ReadPage d page_id = (disk_pages d page_id, d\<lparr>calls := calls d @ [Read_from page_id]\<rparr>)"

definition WritePage :: "DiskManager \<Rightarrow> int \<Rightarrow> char list \<Rightarrow> DiskManager" where
  "WritePage d page_id buf =
     d\<lparr>disk_pages := (disk_pages d)(page_id := buf), calls := calls d @ [Written page_id buf]\<rparr>"

subsection \<open>The pool\<close>

text \<open>
  A \<open>Page *\<close> is \<open>Some i\<close> for the frame \<open>pages[i]\<close> and \<open>None\<close> for the null pointer.
  The log manager is never used by the five operations and is left out.
\<close>

record BufferPoolManager =
  poolSize :: nat
  pages :: "Page list"
  freeList :: "nat option list"
  replacer :: "nat option LRUReplacer"
  pageTable :: "(int, nat option) ExtendibleHash"
  diskManager :: DiskManager

text \<open>
  The constructor; \<open>page_size\<close> and \<open>bucket_size\<close> are \<open>PAGE_SIZE\<close> and \<open>BUCKET_SIZE\<close> of
  \<open>config.h\<close>, \<open>h\<close> is \<open>std::hash<page_id_t>\<close>.
\<close>

definition new_BufferPoolManager ::
  "nat \<Rightarrow> nat \<Rightarrow> nat \<Rightarrow> (int \<Rightarrow> nat) \<Rightarrow> DiskManager \<Rightarrow> BufferPoolManager" where
  "new_BufferPoolManager pool_size page_size bucket_size h disk_manager =
     \<lparr>poolSize = pool_size,
      pages = replicate pool_size (new_Page page_size),
      freeList = map Some [0..<pool_size],
      replacer = new_LRUReplacer None,
      pageTable = new_ExtendibleHash h None bucket_size,
      diskManager = disk_manager\<rparr>"

definition page_at :: "BufferPoolManager \<Rightarrow> nat option \<Rightarrow> Page result" where
  "page_at m p =
     (case p of
        None \<Rightarrow> Fault NullPointer
      | Some i \<Rightarrow> if i < length (pages m) then Done (pages m ! i) else Fault Dangling)"

definition set_page :: "BufferPoolManager \<Rightarrow> nat option \<Rightarrow> Page \<Rightarrow> BufferPoolManager" where
  "set_page m p pg = m\<lparr>pages := (pages m)[the p := pg]\<rparr>"

text \<open>
  The choice of the frame to reuse, the same lines in \<open>FetchPage\<close> and \<open>NewPage\<close>: the
  front of the free list, else the victim of the replacer. The flag is false where the
  source returns the null pointer; \<open>tar\<close> is the pointer after the lines.
\<close>

definition take_victim ::
  "BufferPoolManager \<Rightarrow> nat option \<Rightarrow> (bool \<times> nat option \<times> BufferPoolManager) result" where
  "take_victim m tar =
     (case freeList m of
        x # xs \<Rightarrow> Done (True, x, m\<lparr>freeList := xs\<rparr>)
      | [] \<Rightarrow>
          andThen (Victim (replacer m) tar) (\<lambda>(ok, tar1, rp).
            Done (ok, tar1, m\<lparr>replacer := rp\<rparr>)))"

definition FetchPage ::
  "BufferPoolManager \<Rightarrow> int \<Rightarrow> (nat option \<times> BufferPoolManager) result" where
  "FetchPage m page_id =
     andThen (Find (pageTable m) page_id None) (\<lambda>(found, tar, pt).
       let m0 = m\<lparr>pageTable := pt\<rparr> in
       if found then
         andThen (page_at m0 tar) (\<lambda>pg.
           let m1 = set_page m0 tar (pg\<lparr>pin_count' := pin_count' pg + 1\<rparr>) in
           andThen (Erase (replacer m1) tar) (\<lambda>(erased, rp).
             Done (tar, m1\<lparr>replacer := rp\<rparr>)))
       else
         andThen (take_victim m0 tar) (\<lambda>(ok, tar1, m1).
           if \<not> ok then Done (None, m1)
           else
             andThen (page_at m1 tar1) (\<lambda>pg.
               let m2 = (if is_dirty' pg
                         then m1\<lparr>diskManager :=
                                 WritePage (diskManager m1) (page_id' pg) (GetData pg)\<rparr>
                         else m1) in
               andThen (Remove (pageTable m2) (page_id' pg)) (\<lambda>(removed, pt1).
                 andThen (Insert pt1 page_id tar1) (\<lambda>pt2.
                   let (buf, d) = ReadPage (diskManager m2) page_id;
                       m3 = m2\<lparr>pageTable := pt2, diskManager := d\<rparr>
                   in Done (tar1,
                        set_page m3 tar1
                          (pg\<lparr>data' := buf, page_id' := page_id,
                              is_dirty' := False, pin_count' := 1\<rparr>)))))))"

definition UnpinPage ::
  "BufferPoolManager \<Rightarrow> int \<Rightarrow> bool \<Rightarrow> (bool \<times> BufferPoolManager) result" where
  "UnpinPage m page_id is_dirty =
     andThen (Find (pageTable m) page_id None) (\<lambda>(found0, tar0, pt0).
       andThen (Find pt0 page_id tar0) (\<lambda>(found, tar, pt).
         let m0 = m\<lparr>pageTable := pt\<rparr> in
         if \<not> found then Done (False, m0)
         else
           andThen (page_at m0 tar) (\<lambda>pg.
             let pg1 = pg\<lparr>is_dirty' := is_dirty\<rparr>;
                 m1 = set_page m0 tar pg1
             in if pin_count' pg1 \<le> 0 then Done (False, m1)
                else
                  (let pg2 = pg1\<lparr>pin_count' := pin_count' pg1 - 1\<rparr>;
                       m2 = set_page m1 tar pg2
                   in if pin_count' pg2 = 0
                      then andThen (LRU_Insert (replacer m2) tar) (\<lambda>rp.
                             Done (True, m2\<lparr>replacer := rp\<rparr>))
                      else Done (True, m2)))))"

definition FlushPage ::
  "BufferPoolManager \<Rightarrow> int \<Rightarrow> (bool \<times> BufferPoolManager) result" where
  "FlushPage m page_id =
     (if page_id = INVALID_PAGE_ID then Done (False, m)
      else
        andThen (Find (pageTable m) page_id None) (\<lambda>(found, tar, pt).
          let m0 = m\<lparr>pageTable := pt\<rparr> in
          if found then
            andThen (page_at m0 tar) (\<lambda>pg.
              Done (True,
                m0\<lparr>diskManager := WritePage (diskManager m0) page_id (GetData pg)\<rparr>))
          else Done (False, m0)))"

definition DeletePage ::
  "BufferPoolManager \<Rightarrow> int \<Rightarrow> (bool \<times> BufferPoolManager) result" where
  "DeletePage m page_id =
     andThen (Find (pageTable m) page_id None) (\<lambda>(found, tar, pt).
       let m0 = m\<lparr>pageTable := pt\<rparr> in
       if found then
         andThen (page_at m0 tar) (\<lambda>pg.
           if GetPinCount pg > 0 then Done (False, m0)
           else
             andThen (Remove (pageTable m0) page_id) (\<lambda>(removed, pt1).
               let m1 = m0\<lparr>pageTable := pt1\<rparr>;
                   m2 = set_page m1 tar (ResetMemory (pg\<lparr>is_dirty' := False\<rparr>));
                   m3 = m2\<lparr>freeList := freeList m2 @ [tar]\<rparr>
               in Done (True,
                    m3\<lparr>diskManager := DeallocatePage (diskManager m3) page_id\<rparr>)))
       else Done (True, m0\<lparr>diskManager := DeallocatePage (diskManager m0) page_id\<rparr>))"

text \<open>
  \<open>NewPage\<close> returns the frame pointer, the content of the out-parameter \<open>page_id\<close> after
  the call and the pool after the call.
\<close>

definition NewPage ::
  "BufferPoolManager \<Rightarrow> int \<Rightarrow> (nat option \<times> int \<times> BufferPoolManager) result" where
  "NewPage m page_id =
     andThen (take_victim m None) (\<lambda>(ok, tar, m1).
       if \<not> ok then Done (None, page_id, m1)
       else
         (let (new_id, d) = AllocatePage (diskManager m1);
              m2 = m1\<lparr>diskManager := d\<rparr>
          in andThen (page_at m2 tar) (\<lambda>pg.
               let m3 = (if is_dirty' pg
                         then m2\<lparr>diskManager :=
                                 WritePage (diskManager m2) (page_id' pg) (GetData pg)\<rparr>
                         else m2) in
               andThen (Remove (pageTable m3) (page_id' pg)) (\<lambda>(removed, pt1).
                 andThen (Insert pt1 new_id tar) (\<lambda>pt2.
                   let m4 = m3\<lparr>pageTable := pt2\<rparr>
                   in Done (tar, new_id,
                        set_page m4 tar
                          ((ResetMemory (pg\<lparr>page_id' := new_id\<rparr>))
                             \<lparr>is_dirty' := False, pin_count' := 1\<rparr>)))))))"

section \<open>Sequences of calls and concrete instances\<close>

text \<open>A sequence of \<open>Insert\<close> and \<open>Remove\<close> calls on one table, stopped by a fault.\<close>

datatype ('k, 'v) hash_call = Insert_call 'k 'v | Remove_call 'k

fun hash_calls ::
  "('k::linorder, 'v) ExtendibleHash \<Rightarrow> ('k, 'v) hash_call list
     \<Rightarrow> ('k, 'v) ExtendibleHash result" where
  "hash_calls t [] = Done t"
| "hash_calls t (Insert_call k v # cs) = andThen (Insert t k v) (\<lambda>t'. hash_calls t' cs)"
| "hash_calls t (Remove_call k # cs) =
     andThen (Remove t k) (\<lambda>(removed, t'). hash_calls t' cs)"

text \<open>
  \<open>ExtendibleHash<int, int>\<close>, one of the instances of \<open>extendible_hash.cpp\<close>, with
  \<open>std::hash<int>\<close> as libstdc++ and libc++ have it: the conversion of the key to \<open>size_t\<close>.
\<close>

definition hash_int :: "int \<Rightarrow> nat" where
  "hash_int k = nat (k mod 2 ^ 64)"

definition int_table :: "nat \<Rightarrow> (int, int) ExtendibleHash" where
  "int_table bucket_size = new_ExtendibleHash hash_int 0 bucket_size"

text \<open>The table after the keys 0, 1, 2, 3 went into \<open>int_table 2\<close>, each \<open>k\<close> with \<open>10 + k\<close>.\<close>

definition S5_after :: "(int, int) ExtendibleHash" where
  "S5_after =
     \<lparr>HashKey = hash_int, value_init = 0, bucketSize = 2, bucketCount = 2, pairCount = 4,
      globalDepth = 1, buckets = [Some 0, Some 1],
      bucket_heap =
        [\<lparr>hashItems = [(0, 10), (2, 12)], b_id = 0, localDepth = 1\<rparr>,
         \<lparr>hashItems = [(1, 11), (3, 13)], b_id = 1, localDepth = 1\<rparr>]\<rparr>"

text \<open>
  The table after the keys 0, 1, 2, 4, 9, 17 went into \<open>int_table 2\<close>. The bucket at
  address 1 has local depth 4 and id 1, and slot 3 of the directory still points to it.
\<close>

definition stale_table :: "(int, int) ExtendibleHash" where
  "stale_table =
     \<lparr>HashKey = hash_int, value_init = 0, bucketSize = 2, bucketCount = 4, pairCount = 6,
      globalDepth = 4,
      buckets =
        [Some 0, Some 1, Some 2, Some 1, Some 0, None, Some 2, None,
         Some 0, Some 3, Some 2, None, Some 0, None, Some 2, None],
      bucket_heap =
        [\<lparr>hashItems = [(0, 10), (4, 14)], b_id = 0, localDepth = 2\<rparr>,
         \<lparr>hashItems = [(1, 11), (17, 27)], b_id = 1, localDepth = 4\<rparr>,
         \<lparr>hashItems = [(2, 12)], b_id = 2, localDepth = 2\<rparr>,
         \<lparr>hashItems = [(9, 19)], b_id = 9, localDepth = 4\<rparr>]\<rparr>"

text \<open>\<open>stale_table\<close> after \<open>Insert(19, 29)\<close>, and after \<open>Insert(3, 13)\<close> instead.\<close>

definition lost_table :: "(int, int) ExtendibleHash" where
  "lost_table =
     \<lparr>HashKey = hash_int, value_init = 0, bucketSize = 2, bucketCount = 5, pairCount = 7,
      globalDepth = 5,
      buckets =
        [Some 0, Some 1, Some 2, Some 1, Some 0, None, Some 2, None,
         Some 0, Some 3, Some 2, None, Some 0, None, Some 2, None,
         Some 0, None, Some 2, Some 4, Some 0, None, Some 2, None,
         Some 0, Some 3, Some 2, None, Some 0, None, Some 2, None],
      bucket_heap =
        [\<lparr>hashItems = [(0, 10), (4, 14)], b_id = 0, localDepth = 2\<rparr>,
         \<lparr>hashItems = [(1, 11)], b_id = 1, localDepth = 5\<rparr>,
         \<lparr>hashItems = [(2, 12)], b_id = 2, localDepth = 2\<rparr>,
         \<lparr>hashItems = [(9, 19)], b_id = 9, localDepth = 4\<rparr>,
         \<lparr>hashItems = [(17, 27), (19, 29)], b_id = 19, localDepth = 5\<rparr>]\<rparr>"

definition misplaced_table :: "(int, int) ExtendibleHash" where
  "misplaced_table =
     \<lparr>HashKey = hash_int, value_init = 0, bucketSize = 2, bucketCount = 5, pairCount = 7,
      globalDepth = 5,
      buckets =
        [Some 0, Some 1, Some 2, Some 1, Some 0, None, Some 2, None,
         Some 0, Some 3, Some 2, None, Some 0, None, Some 2, None,
         Some 0, Some 4, Some 2, None, Some 0, None, Some 2, None,
         Some 0, Some 3, Some 2, None, Some 0, None, Some 2, None],
      bucket_heap =
        [\<lparr>hashItems = [(0, 10), (4, 14)], b_id = 0, localDepth = 2\<rparr>,
         \<lparr>hashItems = [(1, 11), (3, 13)], b_id = 1, localDepth = 5\<rparr>,
         \<lparr>hashItems = [(2, 12)], b_id = 2, localDepth = 2\<rparr>,
         \<lparr>hashItems = [(9, 19)], b_id = 9, localDepth = 4\<rparr>,
         \<lparr>hashItems = [(17, 27)], b_id = 17, localDepth = 5\<rparr>]\<rparr>"

text \<open>
  \<open>LRUReplacer<int>\<close>, one of the instances of \<open>lru_replacer.cpp\<close>, and a sequence of
  \<open>Insert\<close> calls on one replacer. (\<open>Insert\<close> of the replacer is \<open>LRU_Insert\<close> here.)
\<close>

fun LRU_Inserts :: "'a::linorder LRUReplacer \<Rightarrow> 'a list \<Rightarrow> 'a LRUReplacer result" where
  "LRU_Inserts l [] = Done l"
| "LRU_Inserts l (x # xs) = andThen (LRU_Insert l x) (\<lambda>l'. LRU_Inserts l' xs)"

definition int_replacer :: "int LRUReplacer" where
  "int_replacer = new_LRUReplacer 0"

text \<open>
  The replacer after \<open>Insert(1)\<close>, \<open>Insert(2)\<close>, \<open>Insert(1)\<close>, \<open>Insert(1)\<close>, then after one
  \<open>Victim\<close> and after two.
\<close>

definition twice_refreshed :: "int LRUReplacer" where
  "twice_refreshed =
     \<lparr>head = Some 0, tail = Some 1, map' = [(1, Some 1), (2, Some 2)], size' = 2,
      nodes = [Some \<lparr>data = 0, pre = None, nxt = Some 2\<rparr>,
               Some \<lparr>data = 1, pre = Some 1, nxt = Some 1\<rparr>,
               Some \<lparr>data = 2, pre = Some 2, nxt = Some 2\<rparr>]\<rparr>"

definition after_one_victim :: "int LRUReplacer" where
  "after_one_victim =
     \<lparr>head = Some 0, tail = Some 1, map' = [(1, Some 1)], size' = 1,
      nodes = [Some \<lparr>data = 0, pre = None, nxt = Some 2\<rparr>,
               Some \<lparr>data = 1, pre = Some 1, nxt = Some 1\<rparr>,
               Some \<lparr>data = 2, pre = Some 0, nxt = Some 2\<rparr>]\<rparr>"

definition after_two_victims :: "int LRUReplacer" where
  "after_two_victims = after_one_victim\<lparr>tail := Some 0, size' := 0\<rparr>"

text \<open>
  A pool of one frame with pages of four bytes and \<open>BUCKET_SIZE\<close> 2, on a disk whose pages
  are all zero, and the pools that the calls named in the lemmas below lead to.
\<close>

definition zero4 :: "char list" where
  "zero4 = [CHR 0x00, CHR 0x00, CHR 0x00, CHR 0x00]"

definition aa4 :: "char list" where
  "aa4 = [CHR 0xAA, CHR 0xAA, CHR 0xAA, CHR 0xAA]"

definition disk0 :: DiskManager where
  "disk0 = \<lparr>disk_pages = (\<lambda>p. zero4), next_page_id = 0, calls = []\<rparr>"

definition pool0 :: BufferPoolManager where
  "pool0 = new_BufferPoolManager 1 4 2 hash_int disk0"

definition fresh_pool :: BufferPoolManager where
  "fresh_pool =
     \<lparr>poolSize = 1,
      pages = [\<lparr>data' = zero4, page_id' = 0, pin_count' = 1, is_dirty' = False\<rparr>],
      freeList = [],
      replacer = new_LRUReplacer None,
      pageTable =
        \<lparr>HashKey = hash_int, value_init = None, bucketSize = 2, bucketCount = 1,
         pairCount = 1, globalDepth = 0, buckets = [Some 0],
         bucket_heap = [\<lparr>hashItems = [(0, Some 0)], b_id = 0, localDepth = 0\<rparr>]\<rparr>,
      diskManager = \<lparr>disk_pages = (\<lambda>p. zero4), next_page_id = 1, calls = [Allocated 0]\<rparr>\<rparr>"

definition in_LRU :: "nat option LRUReplacer" where
  "in_LRU =
     \<lparr>head = Some 0, tail = Some 1, map' = [(Some 0, Some 1)], size' = 1,
      nodes = [Some \<lparr>data = None, pre = None, nxt = Some 1\<rparr>,
               Some \<lparr>data = Some 0, pre = Some 0, nxt = None\<rparr>]\<rparr>"

definition idle_pool :: BufferPoolManager where
  "idle_pool =
     fresh_pool\<lparr>pages := [\<lparr>data' = zero4, page_id' = 0, pin_count' = 0, is_dirty' = False\<rparr>],
                replacer := in_LRU\<rparr>"

definition dirty_pool :: BufferPoolManager where
  "dirty_pool =
     fresh_pool\<lparr>pages := [\<lparr>data' = aa4, page_id' = 0, pin_count' = 0, is_dirty' = True\<rparr>],
                replacer := in_LRU\<rparr>"

definition held_dirty_pool :: BufferPoolManager where
  "held_dirty_pool =
     fresh_pool\<lparr>pages := [\<lparr>data' = aa4, page_id' = 0, pin_count' = 1, is_dirty' = True\<rparr>],
                replacer :=
                  \<lparr>head = Some 0, tail = Some 0, map' = [], size' = 0,
                   nodes = [Some \<lparr>data = None, pre = None, nxt = Some 1\<rparr>, None]\<rparr>\<rparr>"

definition laundered_pool :: BufferPoolManager where
  "laundered_pool =
     fresh_pool\<lparr>pages := [\<lparr>data' = aa4, page_id' = 0, pin_count' = 0, is_dirty' = False\<rparr>],
                replacer :=
                  \<lparr>head = Some 0, tail = Some 2, map' = [(Some 0, Some 2)], size' = 1,
                   nodes = [Some \<lparr>data = None, pre = None, nxt = Some 2\<rparr>, None,
                            Some \<lparr>data = Some 0, pre = Some 0, nxt = None\<rparr>]\<rparr>\<rparr>"

definition deleted_pool :: BufferPoolManager where
  "deleted_pool =
     \<lparr>poolSize = 1,
      pages = [\<lparr>data' = zero4, page_id' = 0, pin_count' = 0, is_dirty' = False\<rparr>],
      freeList = [Some 0],
      replacer = in_LRU,
      pageTable =
        \<lparr>HashKey = hash_int, value_init = None, bucketSize = 2, bucketCount = 1,
         pairCount = 0, globalDepth = 0, buckets = [Some 0],
         bucket_heap = [\<lparr>hashItems = [], b_id = 0, localDepth = 0\<rparr>]\<rparr>,
      diskManager =
        \<lparr>disk_pages = (\<lambda>p. zero4), next_page_id = 1,
         calls = [Allocated 0, Deallocated 0]\<rparr>\<rparr>"

text \<open>
  \<open>fresh_pool\<close> after a second \<open>FetchPage(0)\<close>, and \<open>deleted_pool\<close> after a \<open>NewPage\<close>: its
  only frame is pinned for page 1 and still in the LRU set.
\<close>

definition held_twice_pool :: BufferPoolManager where
  "held_twice_pool =
     fresh_pool\<lparr>pages := [\<lparr>data' = zero4, page_id' = 0, pin_count' = 2, is_dirty' = False\<rparr>]\<rparr>"

definition reused_pool :: BufferPoolManager where
  "reused_pool =
     \<lparr>poolSize = 1,
      pages = [\<lparr>data' = zero4, page_id' = 1, pin_count' = 1, is_dirty' = False\<rparr>],
      freeList = [],
      replacer = in_LRU,
      pageTable =
        \<lparr>HashKey = hash_int, value_init = None, bucketSize = 2, bucketCount = 1,
         pairCount = 1, globalDepth = 0, buckets = [Some 0],
         bucket_heap = [\<lparr>hashItems = [(1, Some 0)], b_id = 0, localDepth = 0\<rparr>]\<rparr>,
      diskManager =
        \<lparr>disk_pages = (\<lambda>p. zero4), next_page_id = 2,
         calls = [Allocated 0, Deallocated 0, Allocated 1]\<rparr>\<rparr>"

section \<open>Properties of the extendible hash\<close>

lemma replicate_numeral: "replicate (numeral v) x = x # replicate (numeral v - 1) x"
  by (simp add: numeral_eq_Suc)

lemma list_update_Cons_numeral: "(x # xs)[numeral v := y] = x # xs[numeral v - 1 := y]"
  by (simp add: numeral_eq_Suc)

lemmas hash_defs =
  replicate_numeral list_update_Cons_numeral Insert_def Find_def Remove_def split_def
  relink_def place_def regrow_slot_def deref_def store_def vec_at_def vec_set_def
  split_turn_def map_subscript_def new_ExtendibleHash_def Let_def split_loop.simps upt_rec
  hash_int_def int_table_def

text \<open>
  Under the guard of \<open>Find\<close> the subscript finds the key, so it adds nothing, and the
  bucket written back is the bucket read.
\<close>

lemma Find_unfold:
  "Find t key val =
     andThen (vec_at (buckets t) (HashKey t key mod 2 ^ globalDepth t)) (\<lambda>p.
       case p of
         None \<Rightarrow> Done (False, val, t)
       | Some a \<Rightarrow>
           andThen (deref t a) (\<lambda>b.
             case map_of (hashItems b) key of
               None \<Rightarrow> Done (False, val, t)
             | Some v \<Rightarrow> Done (True, v, t)))"
  by (auto simp: Find_def Let_def vec_at_def deref_def store_def map_subscript_def
           split: option.splits)

lemma Find_table: "Find t key val = Done (found, val', t') \<Longrightarrow> t' = t"
  by (auto simp: Find_unfold vec_at_def deref_def split: option.splits if_splits)

text \<open>
  \<open>Find\<close> returns on every table whose directory has \<open>2 ^ globalDepth\<close> slots, each null
  or pointing into the store.
\<close>

lemma Find_returns:
  assumes "length (buckets t) = 2 ^ globalDepth t"
    and "\<And>a. Some a \<in> set (buckets t) \<Longrightarrow> a < length (bucket_heap t)"
  shows "\<exists>found val'. Find t key val = Done (found, val', t)"
proof -
  let ?i = "HashKey t key mod 2 ^ globalDepth t"
  have i: "?i < length (buckets t)"
    using assms(1) by simp
  show ?thesis
  proof (cases "buckets t ! ?i")
    case None
    with i show ?thesis by (auto simp: Find_unfold vec_at_def)
  next
    case (Some a)
    with i have "Some a \<in> set (buckets t)" by (metis nth_mem)
    then have "a < length (bucket_heap t)" by (rule assms(2))
    with i Some show ?thesis
      by (auto simp: Find_unfold vec_at_def deref_def split: option.splits)
  qed
qed

text \<open>
  C10. \<open>Find\<close> leaves the table as it was, whether or not the key is found: the table
  after a call that returns is the table before it, so the global depth, the bucket
  count, the pair count, the directory and every bucket are the same.
\<close>

theorem Find_leaves_table_unchanged:
  assumes "Find t key val = Done (found, val', t')"
  shows "t' = t"
  using assms by (rule Find_table)

theorem Find_leaves_table_unchanged_witness:
  "Find S5_after 3 0 = Done (True, 13, S5_after) \<and>
   Find S5_after 5 0 = Done (False, 0, S5_after)"
proof -
  obtain t1 where h1: "Find S5_after 3 0 = Done (True, 13, t1)"
    by (simp add: hash_defs S5_after_def)
  obtain t2 where h2: "Find S5_after 5 0 = Done (False, 0, t2)"
    by (simp add: hash_defs S5_after_def)
  from h1 h2 Find_leaves_table_unchanged [OF h1] Find_leaves_table_unchanged [OF h2]
  show ?thesis by simp
qed

text \<open>The table of the scenarios below, step by step.\<close>

lemma S5_after_reached:
  "hash_calls (int_table 2)
     [Insert_call 0 10, Insert_call 1 11, Insert_call 2 12, Insert_call 3 13] = Done S5_after"
  by (simp add: hash_defs S5_after_def)

lemma stale_table_reached:
  "hash_calls (int_table 2)
     [Insert_call 0 10, Insert_call 1 11, Insert_call 2 12, Insert_call 4 14,
      Insert_call 9 19, Insert_call 17 27] = Done stale_table"
  by (simp add: hash_defs stale_table_def)

lemma lost_table_reached: "Insert stale_table 19 29 = Done lost_table"
  by (simp add: hash_defs stale_table_def lost_table_def)

lemma misplaced_table_reached: "Insert stale_table 3 13 = Done misplaced_table"
  by (simp add: hash_defs stale_table_def misplaced_table_def)

text \<open>
  C2. The claim fails on the code: in \<open>ExtendibleHash<int, int>\<close> with bucket size 2,
  after \<open>Insert\<close> of the keys 0, 1, 2, 4, 9, 17 and 19, none of them removed,
  \<open>Find(17)\<close> returns false. The split of the bucket of 1, 9 and 17 from local depth 1 to 4
  leaves slot 3 of the directory pointing to it; 19 enters through that slot, the next
  split moves 17 and 19 together and files the new bucket under 19 only.
\<close>

theorem Find_misses_inserted_key:
  "hash_calls (int_table 2)
     [Insert_call 0 10, Insert_call 1 11, Insert_call 2 12, Insert_call 4 14,
      Insert_call 9 19, Insert_call 17 27, Insert_call 19 29] = Done lost_table \<and>
   Find lost_table 17 0 = Done (False, 0, lost_table)"
  by (simp add: hash_defs lost_table_def)

text \<open>
  C9. The claim fails on the code: after \<open>Insert\<close> of the keys 0, 1, 2, 4, 9, 17 and 3
  the stored key 3 is found through slot \<open>3 mod 2 ^ 5\<close>, which points to the bucket at
  address 1; its local depth is 5, its id is 1 and not \<open>3 mod 2 ^ 5\<close>, and its entries 1
  and 3 differ in their low 5 bits.
\<close>

theorem stored_key_in_foreign_bucket:
  "hash_calls (int_table 2)
     [Insert_call 0 10, Insert_call 1 11, Insert_call 2 12, Insert_call 4 14,
      Insert_call 9 19, Insert_call 17 27, Insert_call 3 13] = Done misplaced_table \<and>
   Find misplaced_table 3 0 = Done (True, 13, misplaced_table) \<and>
   globalDepth misplaced_table = 5 \<and>
   vec_at (buckets misplaced_table) (hash_int 3 mod 2 ^ 5) = Done (Some 1) \<and>
   deref misplaced_table 1 = Done \<lparr>hashItems = [(1, 11), (3, 13)], b_id = 1, localDepth = 5\<rparr> \<and>
   hash_int 3 mod 2 ^ 5 = 3 \<and> hash_int 1 mod 2 ^ 5 = 1"
  by (simp add: hash_defs misplaced_table_def)

text \<open>
  C4, as the spec states it, fails on the code: with bucket size 2 and the hash values
  0, 1, 2, 3 the third insertion splits the only bucket on bit 0, and the fourth key
  finds room in the bucket of the odd hashes; the global depth is 1 and there are 2
  buckets.
\<close>

theorem S5_depth_and_buckets_counterexample:
  "hash_calls (int_table 2)
     [Insert_call 0 10, Insert_call 1 11, Insert_call 2 12, Insert_call 3 13] = Done S5_after \<and>
   \<not> (GetGlobalDepth S5_after \<ge> 2 \<and> GetNumBuckets S5_after \<ge> 3)"
  by (simp add: hash_defs S5_after_def GetGlobalDepth_def GetNumBuckets_def)

text \<open>
  C4, amended: for a table of bucket size 2 and keys with the hash values 0, 1, 2, 3,
  inserted in this order, the four insertions return, afterwards \<open>GetGlobalDepth\<close> is 1,
  \<open>GetNumBuckets\<close> is 2, and \<open>Find\<close> succeeds for each of the four keys with its value.
\<close>

theorem S5_four_inserts:
  fixes h :: "'k::linorder \<Rightarrow> nat"
  assumes h: "h k0 = 0" "h k1 = 1" "h k2 = 2" "h k3 = 3"
  shows "\<exists>t. hash_calls (new_ExtendibleHash h d 2)
            [Insert_call k0 v0, Insert_call k1 v1, Insert_call k2 v2, Insert_call k3 v3]
              = Done t \<and>
          GetGlobalDepth t = 1 \<and> GetNumBuckets t = 2 \<and>
          Find t k0 x = Done (True, v0, t) \<and> Find t k1 x = Done (True, v1, t) \<and>
          Find t k2 x = Done (True, v2, t) \<and> Find t k3 x = Done (True, v3, t)"
proof -
  have ne: "k0 \<noteq> k1" "k0 \<noteq> k2" "k0 \<noteq> k3" "k1 \<noteq> k2" "k1 \<noteq> k3" "k2 \<noteq> k3"
           "k1 \<noteq> k0" "k2 \<noteq> k0" "k3 \<noteq> k0" "k2 \<noteq> k1" "k3 \<noteq> k1" "k3 \<noteq> k2"
    using h by auto
  show ?thesis
    by (auto simp: hash_defs h ne GetGlobalDepth_def GetNumBuckets_def)
qed

theorem S5_four_inserts_witness:
  "\<exists>t. hash_calls (new_ExtendibleHash hash_int (0::int) 2)
          [Insert_call 0 10, Insert_call 1 11, Insert_call 2 12, Insert_call 3 13] = Done t \<and>
        GetGlobalDepth t = 1 \<and> GetNumBuckets t = 2 \<and>
        Find t 0 0 = Done (True, 10, t) \<and> Find t 1 0 = Done (True, 11, t) \<and>
        Find t 2 0 = Done (True, 12, t) \<and> Find t 3 0 = Done (True, 13, t)"
proof -
  have "hash_int 0 = 0" "hash_int 1 = 1" "hash_int 2 = 2" "hash_int 3 = 3"
    by (simp_all add: hash_int_def)
  then show ?thesis
    by (rule S5_four_inserts)
qed

section \<open>Properties of the LRU replacer\<close>

lemmas lru_defs =
  LRU_Insert_def Victim_def Erase_def unlink_def node_at_def set_pre_def set_nxt_def
  delete_node_def new_LRUReplacer_def Size_def Let_def int_replacer_def

text \<open>
  The scenario S6 of the spec holds: after \<open>Insert\<close> of 1, 2, 3 and 1 again the victims
  are 2, 3 and 1, and then the replacer is empty.
\<close>

lemma S6_LRU_order:
  "\<exists>l0 l1 l2 l3.
     LRU_Inserts int_replacer [1, 2, 3, 1] = Done l0 \<and>
     Victim l0 0 = Done (True, 2, l1) \<and> Victim l1 0 = Done (True, 3, l2) \<and>
     Victim l2 0 = Done (True, 1, l3) \<and> Victim l3 0 = Done (False, 0, l3)"
  by (simp add: lru_defs)

text \<open>
  \<open>Insert\<close> of the value that is already the most recent one reads \<open>cur->next\<close>, the null
  pointer, and writes through it. \<open>Erase\<close> has a branch for the tail; \<open>Insert\<close> has none.
\<close>

lemma Insert_of_most_recent_faults:
  "LRU_Inserts int_replacer [1, 1] = Fault NullPointer"
  by (simp add: lru_defs)

text \<open>
  \<open>Erase\<close> of the most recent value deletes its node and leaves the pointer to it in the
  new tail; a \<open>Victim\<close> that then empties the list writes through that pointer.
\<close>

lemma Victim_after_Erase_of_most_recent:
  "\<exists>l0 l1. LRU_Inserts int_replacer [1, 2] = Done l0 \<and> Erase l0 2 = Done (True, l1) \<and>
     Victim l1 0 = Fault Dangling"
  by (simp add: lru_defs)

text \<open>
  C8. The claim fails on the code: after \<open>Insert(1)\<close>, \<open>Insert(2)\<close>, \<open>Insert(1)\<close> and
  \<open>Insert(1)\<close> the replacer holds 2 (least recent) and 1. The first \<open>Victim\<close> returns 2; the
  second returns 2 again, which is no longer present, instead of 1; the third returns
  false although the index still holds 1 and \<open>Size\<close> is 1. The first refresh of 1 leaves the
  old successor in \<open>next\<close> of the moved node, and the second refresh, of the tail itself,
  links the list through it.
\<close>

theorem Victim_returns_removed_value:
  "LRU_Inserts int_replacer [1, 2, 1, 1] = Done twice_refreshed \<and>
   Victim twice_refreshed 0 = Done (True, 2, after_one_victim) \<and>
   Victim after_one_victim 0 = Done (True, 2, after_two_victims) \<and>
   Victim after_two_victims 0 = Done (False, 0, after_two_victims) \<and>
   Size after_two_victims = 1 \<and> map_of (map' after_two_victims) 1 = Some (Some 1)"
  by (simp add: lru_defs twice_refreshed_def after_one_victim_def after_two_victims_def)

section \<open>Properties of the buffer pool manager\<close>

lemmas pool_defs =
  FetchPage_def NewPage_def UnpinPage_def FlushPage_def DeletePage_def take_victim_def
  page_at_def set_page_def new_BufferPoolManager_def new_Page_def ResetMemory_def GetData_def
  GetPinCount_def AllocatePage_def DeallocatePage_def ReadPage_def WritePage_def
  INVALID_PAGE_ID_def

lemmas fixture_defs =
  zero4_def aa4_def disk0_def pool0_def fresh_pool_def in_LRU_def idle_pool_def dirty_pool_def
  held_dirty_pool_def laundered_pool_def deleted_pool_def held_twice_pool_def reused_pool_def

lemma andThen_Done: "andThen m f = Done y \<longleftrightarrow> (\<exists>x. m = Done x \<and> f x = Done y)"
  by (cases m) auto

lemma andThen_case:
  "andThen m f = (case m of Done x \<Rightarrow> f x | Fault e \<Rightarrow> Fault e | Diverges \<Rightarrow> Diverges)"
  by (cases m) auto

lemma Find_found_any_val:
  assumes "Find t key val = Done (True, v, t')"
  shows "Find t key val2 = Done (True, v, t)"
  using assms
  by (auto simp: Find_unfold andThen_case split: result.splits option.splits)

lemma Find_not_found_val:
  assumes "Find t key val = Done (False, v, t')"
  shows "v = val"
  using assms
  by (auto simp: Find_unfold andThen_case split: result.splits option.splits)

lemma take_victim_frame:
  assumes "take_victim m tar = Done (ok, tar1, m1)"
  shows "pages m1 = pages m \<and> pageTable m1 = pageTable m \<and> diskManager m1 = diskManager m"
  using assms
  by (auto simp: take_victim_def andThen_Done split: list.splits)

lemma page_at_same_pages: "pages m2 = pages m \<Longrightarrow> page_at m2 p = page_at m p"
  by (cases p) (simp_all add: page_at_def)

subsection \<open>The pools of the scenarios\<close>

lemma fresh_pool_reached: "NewPage pool0 INVALID_PAGE_ID = Done (Some 0, 0, fresh_pool)"
  by (simp add: pool_defs lru_defs hash_defs fixture_defs)

lemma idle_pool_reached: "UnpinPage fresh_pool 0 False = Done (True, idle_pool)"
  by (simp add: pool_defs lru_defs hash_defs fixture_defs)

text \<open>The caller fills the buffer of the pinned frame with \<open>0xAA\<close> and unpins it as dirty.\<close>

lemma dirty_pool_reached:
  "UnpinPage (set_page fresh_pool (Some 0) ((pages fresh_pool ! 0)\<lparr>data' := aa4\<rparr>)) 0 True
     = Done (True, dirty_pool)"
  by (simp add: pool_defs lru_defs hash_defs fixture_defs)

lemma held_dirty_pool_reached: "FetchPage dirty_pool 0 = Done (Some 0, held_dirty_pool)"
  by (simp add: pool_defs lru_defs hash_defs fixture_defs)

lemma held_twice_pool_reached: "FetchPage fresh_pool 0 = Done (Some 0, held_twice_pool)"
  by (simp add: pool_defs lru_defs hash_defs fixture_defs)

lemma reused_pool_reached: "NewPage deleted_pool INVALID_PAGE_ID = Done (Some 0, 1, reused_pool)"
  by (simp add: pool_defs lru_defs hash_defs fixture_defs)

subsection \<open>Write-back of a dirty victim\<close>

text \<open>
  \<open>FetchPage\<close> of a page that is not resident, and \<open>NewPage\<close>, on a pool whose next
  frame for reuse is dirty: all that can keep the call from returning is \<open>Remove\<close> and
  \<open>Insert\<close> of the page table, which run after the write.
\<close>

lemma FetchPage_dirty_victim_eq:
  assumes victim: "take_victim m None = Done (True, Some f, m1)"
    and frame: "page_at m (Some f) = Done pg"
    and dirty: "is_dirty' pg"
    and absent: "Find (pageTable m) page_id None = Done (False, tar0, pt0)"
  shows "FetchPage m page_id =
           andThen (Remove (pageTable m) (page_id' pg)) (\<lambda>(removed, pt1).
             andThen (Insert pt1 page_id (Some f)) (\<lambda>pt2.
               Done (Some f,
                 m1\<lparr>pageTable := pt2,
                    diskManager := (diskManager m)
                      \<lparr>disk_pages := (disk_pages (diskManager m))(page_id' pg := data' pg),
                       calls := calls (diskManager m) @
                         [Written (page_id' pg) (data' pg), Read_from page_id]\<rparr>,
                    pages := (pages m)[f := pg
                      \<lparr>data' := ((disk_pages (diskManager m))(page_id' pg := data' pg)) page_id,
                       page_id' := page_id, is_dirty' := False, pin_count' := 1\<rparr>]\<rparr>)))"
proof -
  have pt0: "pt0 = pageTable m" using absent by (rule Find_table)
  have tar0: "tar0 = None" using absent by (rule Find_not_found_val)
  have same: "pages m1 = pages m" "diskManager m1 = diskManager m" "pageTable m1 = pageTable m"
    using take_victim_frame [OF victim] by simp_all
  have frame1: "page_at m1 (Some f) = Done pg"
    using frame page_at_same_pages [OF same(1), of "Some f"] by simp
  show ?thesis
    unfolding FetchPage_def absent pt0 tar0
    by (simp add: victim frame1 dirty same set_page_def WritePage_def ReadPage_def GetData_def
          Let_def split_beta)
qed

lemma NewPage_dirty_victim_eq:
  assumes victim: "take_victim m None = Done (True, Some f, m1)"
    and frame: "page_at m (Some f) = Done pg"
    and dirty: "is_dirty' pg"
  shows "NewPage m p0 =
           andThen (Remove (pageTable m) (page_id' pg)) (\<lambda>(removed, pt1).
             andThen (Insert pt1 (next_page_id (diskManager m)) (Some f)) (\<lambda>pt2.
               Done (Some f, next_page_id (diskManager m),
                 m1\<lparr>diskManager := (diskManager m)
                      \<lparr>next_page_id := next_page_id (diskManager m) + 1,
                       disk_pages := (disk_pages (diskManager m))(page_id' pg := data' pg),
                       calls := calls (diskManager m) @
                         [Allocated (next_page_id (diskManager m)),
                          Written (page_id' pg) (data' pg)]\<rparr>,
                    pageTable := pt2,
                    pages := (pages m)[f := pg
                      \<lparr>page_id' := next_page_id (diskManager m),
                       data' := replicate (length (data' pg)) (CHR 0x00),
                       is_dirty' := False, pin_count' := 1\<rparr>]\<rparr>)))"
proof -
  have same: "pages m1 = pages m" "diskManager m1 = diskManager m" "pageTable m1 = pageTable m"
    using take_victim_frame [OF victim] by simp_all
  have frame1: "page_at (m1\<lparr>diskManager := d\<rparr>) (Some f) = Done pg" for d
    using frame page_at_same_pages [of "m1\<lparr>diskManager := d\<rparr>" m "Some f"] same by simp
  show ?thesis
    unfolding NewPage_def
    by (simp add: victim frame1 dirty same set_page_def WritePage_def AllocatePage_def GetData_def
          ResetMemory_def Let_def split_beta)
qed


text \<open>
  C1. When the frame that \<open>FetchPage\<close> (for a page that is not resident) or \<open>NewPage\<close>
  takes for reuse is dirty, the call is the page table's \<open>Remove\<close> of the old id and
  \<open>Insert\<close> of the new one, and whenever these two return it returns the frame with a
  pool in which the disk manager has received \<open>WritePage\<close> with the frame's old page id
  and its old buffer before anything else was done with the frame: in \<open>FetchPage\<close> the
  calls of the operation are this write and then the read of the new page into the
  frame, in \<open>NewPage\<close> the allocation of the new id and then this write. The disk holds
  the old buffer under the old id, and the frame carries the new id, is clean and pinned
  once.
\<close>

theorem dirty_victim_written_before_reuse:
  assumes victim: "take_victim m None = Done (True, Some f, m1)"
    and frame: "page_at m (Some f) = Done pg"
    and dirty: "is_dirty' pg"
  shows "(Find (pageTable m) page_id None = Done (False, tar0, pt0) \<longrightarrow>
          FetchPage m page_id =
            andThen (Remove (pageTable m) (page_id' pg)) (\<lambda>(removed, pt1).
              andThen (Insert pt1 page_id (Some f)) (\<lambda>pt2.
                Done (Some f,
                  m1\<lparr>pageTable := pt2,
                     diskManager := (diskManager m)
                       \<lparr>disk_pages := (disk_pages (diskManager m))(page_id' pg := data' pg),
                        calls := calls (diskManager m) @
                          [Written (page_id' pg) (data' pg), Read_from page_id]\<rparr>,
                     pages := (pages m)[f := pg
                       \<lparr>data' := ((disk_pages (diskManager m))(page_id' pg := data' pg)) page_id,
                        page_id' := page_id, is_dirty' := False, pin_count' := 1\<rparr>]\<rparr>)))) \<and>
         NewPage m p0 =
           andThen (Remove (pageTable m) (page_id' pg)) (\<lambda>(removed, pt1).
             andThen (Insert pt1 (next_page_id (diskManager m)) (Some f)) (\<lambda>pt2.
               Done (Some f, next_page_id (diskManager m),
                 m1\<lparr>diskManager := (diskManager m)
                      \<lparr>next_page_id := next_page_id (diskManager m) + 1,
                       disk_pages := (disk_pages (diskManager m))(page_id' pg := data' pg),
                       calls := calls (diskManager m) @
                         [Allocated (next_page_id (diskManager m)),
                          Written (page_id' pg) (data' pg)]\<rparr>,
                    pageTable := pt2,
                    pages := (pages m)[f := pg
                      \<lparr>page_id' := next_page_id (diskManager m),
                       data' := replicate (length (data' pg)) (CHR 0x00),
                       is_dirty' := False, pin_count' := 1\<rparr>]\<rparr>)))"
  using FetchPage_dirty_victim_eq [OF assms] NewPage_dirty_victim_eq [OF assms]
  by blast

theorem dirty_victim_written_before_reuse_witness:
  "(\<exists>m'. FetchPage dirty_pool 7 = Done (Some 0, m') \<and>
          calls (diskManager m') = [Allocated 0, Written 0 aa4, Read_from 7] \<and>
          disk_pages (diskManager m') 0 = aa4 \<and> page_id' (pages m' ! 0) = 7) \<and>
   (\<exists>m'. NewPage dirty_pool INVALID_PAGE_ID = Done (Some 0, 1, m') \<and>
          calls (diskManager m') = [Allocated 0, Allocated 1, Written 0 aa4] \<and>
          disk_pages (diskManager m') 0 = aa4 \<and> page_id' (pages m' ! 0) = 1)"
proof -
  let ?pg = "\<lparr>data' = aa4, page_id' = 0, pin_count' = 0, is_dirty' = True\<rparr>"
  obtain m1 where victim: "take_victim dirty_pool None = Done (True, Some 0, m1)"
    by (simp add: pool_defs lru_defs fixture_defs)
  have frame: "page_at dirty_pool (Some 0) = Done ?pg"
    by (simp add: pool_defs fixture_defs)
  have dirty: "is_dirty' ?pg"
    by simp
  have absent: "Find (pageTable dirty_pool) 7 None = Done (False, None, pageTable dirty_pool)"
    by (simp add: hash_defs fixture_defs)
  have removed: "Remove (pageTable dirty_pool) 0 = Done (True, pageTable deleted_pool)"
    by (simp add: hash_defs fixture_defs)
  obtain pt7 where ins7: "Insert (pageTable deleted_pool) 7 (Some 0) = Done pt7"
    by (simp add: hash_defs fixture_defs)
  obtain pt1 where ins1: "Insert (pageTable deleted_pool) 1 (Some 0) = Done pt1"
    by (simp add: hash_defs fixture_defs)
  have disk: "calls (diskManager dirty_pool) = [Allocated 0]"
    "next_page_id (diskManager dirty_pool) = 1" "length (pages dirty_pool) = 1"
    by (simp_all add: fixture_defs)
  note written = dirty_victim_written_before_reuse [OF victim frame dirty]
  have a: "\<exists>m'. FetchPage dirty_pool 7 = Done (Some 0, m') \<and>
          calls (diskManager m') = [Allocated 0, Written 0 aa4, Read_from 7] \<and>
          disk_pages (diskManager m') 0 = aa4 \<and> page_id' (pages m' ! 0) = 7"
    unfolding written [THEN conjunct1, rule_format, OF absent]
    by (simp add: removed ins7 disk)
  have b: "\<exists>m'. NewPage dirty_pool INVALID_PAGE_ID = Done (Some 0, 1, m') \<and>
          calls (diskManager m') = [Allocated 0, Allocated 1, Written 0 aa4] \<and>
          disk_pages (diskManager m') 0 = aa4 \<and> page_id' (pages m' ! 0) = 1"
    unfolding written [THEN conjunct2, of INVALID_PAGE_ID]
    by (simp add: removed ins1 disk)
  from a b show ?thesis by blast
qed

subsection \<open>\<open>UnpinPage\<close>\<close>

text \<open>
  C3, as the spec states it, fails on the code in two places. \<open>UnpinPage\<close> assigns the
  argument to the dirty flag: the page 0 of \<open>held_dirty_pool\<close> is resident, pinned once
  and dirty, and \<open>UnpinPage(0, false)\<close> returns true and leaves it clean. And it does not
  return true for every resident page with pin count 1: the frame of page 1 in
  \<open>reused_pool\<close> is already the most recent element of the LRU set, and \<open>Insert\<close> of the
  replacer dereferences the null pointer.
\<close>

theorem UnpinPage_clears_dirty_counterexample:
  "UnpinPage held_dirty_pool 0 False = Done (True, laundered_pool) \<and>
   is_dirty' (pages held_dirty_pool ! 0) \<and>
   \<not> is_dirty' (pages laundered_pool ! 0) \<and>
   pin_count' (pages reused_pool ! 0) = 1 \<and>
   Find (pageTable reused_pool) 1 None = Done (True, Some 0, pageTable reused_pool) \<and>
   UnpinPage reused_pool 1 False = Fault NullPointer"
  by (simp add: pool_defs lru_defs hash_defs fixture_defs)

text \<open>
  \<open>Insert\<close> of a value that the replacer does not hold, when the tail of its list is a
  live node: the value gets a new node behind the tail.
\<close>

lemma LRU_Insert_absent:
  assumes "map_of (map' l) v = None"
    and "tail l = Some ta" and "ta < length (nodes l)" and "nodes l ! ta = Some tn"
  shows "LRU_Insert l v =
           Done (l\<lparr>nodes := (nodes l @ [Some \<lparr>data = v, pre = Some ta, nxt = None\<rparr>])
                         [ta := Some (tn\<lparr>nxt := Some (length (nodes l))\<rparr>)],
                    tail := Some (length (nodes l)),
                    map' := map_insert v (Some (length (nodes l))) (map' l),
                    size' := (size' l + 1) mod 2 ^ 64\<rparr>)"
  using assms
  by (simp add: LRU_Insert_def set_nxt_def node_at_def nth_append Let_def)

text \<open>
  C3, amended: for a page id resident in the page table with frame \<open>F\<close>, \<open>UnpinPage(id, d)\<close>
  sets \<open>F.is_dirty\<close> to \<open>d\<close>; with \<open>F.pin_count \<le> 0\<close> it does nothing else and returns
  false. With \<open>F.pin_count \<ge> 1\<close> it decrements the pin count; it returns true when the
  count stays above zero, and when the count reaches zero it calls \<open>Insert(F)\<close> of the
  replacer and, \<open>F\<close> not being in the LRU set and the tail of its list being a live node,
  returns true with \<open>F\<close> the most recent element of the LRU set. Nothing else in the pool
  changes.
\<close>

theorem UnpinPage_resident:
  assumes res: "Find (pageTable m) page_id None = Done (True, Some f, pt)"
    and f: "f < length (pages m)"
  shows "(pin_count' (pages m ! f) \<le> 0 \<longrightarrow>
            UnpinPage m page_id d =
              Done (False, m\<lparr>pages := (pages m)[f := (pages m ! f)\<lparr>is_dirty' := d\<rparr>]\<rparr>)) \<and>
         (pin_count' (pages m ! f) > 1 \<longrightarrow>
            UnpinPage m page_id d =
              Done (True,
                m\<lparr>pages := (pages m)[f := (pages m ! f)
                     \<lparr>is_dirty' := d, pin_count' := pin_count' (pages m ! f) - 1\<rparr>]\<rparr>)) \<and>
         (pin_count' (pages m ! f) = 1 \<longrightarrow>
            UnpinPage m page_id d =
              andThen (LRU_Insert (replacer m) (Some f)) (\<lambda>rp.
                Done (True,
                  m\<lparr>pages := (pages m)[f := (pages m ! f)\<lparr>is_dirty' := d, pin_count' := 0\<rparr>],
                    replacer := rp\<rparr>))) \<and>
         (pin_count' (pages m ! f) = 1 \<longrightarrow>
          map_of (map' (replacer m)) (Some f) = None \<longrightarrow>
          tail (replacer m) = Some ta \<longrightarrow> ta < length (nodes (replacer m)) \<longrightarrow>
          nodes (replacer m) ! ta = Some tn \<longrightarrow>
            UnpinPage m page_id d =
              Done (True,
                m\<lparr>pages := (pages m)[f := (pages m ! f)\<lparr>is_dirty' := d, pin_count' := 0\<rparr>],
                  replacer := (replacer m)
                    \<lparr>nodes := (nodes (replacer m) @
                         [Some \<lparr>data = Some f, pre = Some ta, nxt = None\<rparr>])
                         [ta := Some (tn\<lparr>nxt := Some (length (nodes (replacer m)))\<rparr>)],
                     tail := Some (length (nodes (replacer m))),
                     map' := map_insert (Some f) (Some (length (nodes (replacer m))))
                               (map' (replacer m)),
                     size' := (size' (replacer m) + 1) mod 2 ^ 64\<rparr>\<rparr>))"
proof -
  have pt: "pt = pageTable m" using res by (rule Find_table)
  have res2: "Find (pageTable m) page_id (Some f) = Done (True, Some f, pageTable m)"
    using res by (rule Find_found_any_val)
  have one: "pin_count' (pages m ! f) = 1 \<Longrightarrow>
      UnpinPage m page_id d =
        andThen (LRU_Insert (replacer m) (Some f)) (\<lambda>rp.
          Done (True,
            m\<lparr>pages := (pages m)[f := (pages m ! f)\<lparr>is_dirty' := d, pin_count' := 0\<rparr>],
              replacer := rp\<rparr>))"
    using res f unfolding pt
    by (simp add: UnpinPage_def res2 page_at_def set_page_def Let_def)
  have rest: "pin_count' (pages m ! f) \<le> 0 \<Longrightarrow>
      UnpinPage m page_id d =
        Done (False, m\<lparr>pages := (pages m)[f := (pages m ! f)\<lparr>is_dirty' := d\<rparr>]\<rparr>)"
    "pin_count' (pages m ! f) > 1 \<Longrightarrow>
      UnpinPage m page_id d =
        Done (True,
          m\<lparr>pages := (pages m)[f := (pages m ! f)
               \<lparr>is_dirty' := d, pin_count' := pin_count' (pages m ! f) - 1\<rparr>]\<rparr>)"
    using res f unfolding pt
    by (simp_all add: UnpinPage_def res2 page_at_def set_page_def Let_def)
  show ?thesis
    using one rest by (simp add: LRU_Insert_absent)
qed

theorem UnpinPage_resident_witness:
  "UnpinPage idle_pool 0 True =
     Done (False, idle_pool\<lparr>pages :=
       [\<lparr>data' = zero4, page_id' = 0, pin_count' = 0, is_dirty' = True\<rparr>]\<rparr>) \<and>
   UnpinPage held_twice_pool 0 True =
     Done (True, held_twice_pool\<lparr>pages :=
       [\<lparr>data' = zero4, page_id' = 0, pin_count' = 1, is_dirty' = True\<rparr>]\<rparr>) \<and>
   UnpinPage fresh_pool 0 True =
     Done (True, fresh_pool\<lparr>pages :=
       [\<lparr>data' = zero4, page_id' = 0, pin_count' = 0, is_dirty' = True\<rparr>],
       replacer := in_LRU\<rparr>)"
proof -
  have res0: "Find (pageTable idle_pool) 0 None = Done (True, Some 0, pageTable idle_pool)"
    and res1: "Find (pageTable held_twice_pool) 0 None
                 = Done (True, Some 0, pageTable held_twice_pool)"
    and res2: "Find (pageTable fresh_pool) 0 None = Done (True, Some 0, pageTable fresh_pool)"
    by (simp_all add: hash_defs fixture_defs)
  have f: "0 < length (pages idle_pool)" "0 < length (pages held_twice_pool)"
    "0 < length (pages fresh_pool)"
    by (simp_all add: fixture_defs)
  have a: "UnpinPage idle_pool 0 True =
     Done (False, idle_pool\<lparr>pages :=
       [\<lparr>data' = zero4, page_id' = 0, pin_count' = 0, is_dirty' = True\<rparr>]\<rparr>)"
    using UnpinPage_resident [OF res0 f(1), THEN conjunct1, of True]
    by (simp add: fixture_defs)
  have b: "UnpinPage held_twice_pool 0 True =
     Done (True, held_twice_pool\<lparr>pages :=
       [\<lparr>data' = zero4, page_id' = 0, pin_count' = 1, is_dirty' = True\<rparr>]\<rparr>)"
    using UnpinPage_resident [OF res1 f(2), THEN conjunct2, THEN conjunct1, of True]
    by (simp add: fixture_defs)
  have c: "UnpinPage fresh_pool 0 True =
     Done (True, fresh_pool\<lparr>pages :=
       [\<lparr>data' = zero4, page_id' = 0, pin_count' = 0, is_dirty' = True\<rparr>],
       replacer := in_LRU\<rparr>)"
    using UnpinPage_resident [OF res2 f(3), THEN conjunct2, THEN conjunct2, THEN conjunct2,
        of 0 "\<lparr>data = None, pre = None, nxt = None\<rparr>" True]
    by (simp add: fixture_defs new_LRUReplacer_def)
  from a b c show ?thesis by simp
qed

subsection \<open>\<open>DeletePage\<close>\<close>

text \<open>
  What \<open>DeletePage\<close> does to a resident page that is not pinned, when \<open>Remove\<close> on the
  page table returns: the replacer and the frame's stored page id are not touched.
\<close>

lemma DeletePage_unpinned:
  assumes res: "Find (pageTable m) page_id None = Done (True, Some f, pt)"
    and f: "f < length (pages m)"
    and pin: "pin_count' (pages m ! f) \<le> 0"
    and removed: "Remove (pageTable m) page_id = Done (b, pt1)"
  shows "DeletePage m page_id =
           Done (True,
             m\<lparr>pageTable := pt1,
               pages := (pages m)[f := (pages m ! f)
                 \<lparr>is_dirty' := False,
                  data' := replicate (length (data' (pages m ! f))) (CHR 0x00)\<rparr>],
               freeList := freeList m @ [Some f],
               diskManager := DeallocatePage (diskManager m) page_id\<rparr>)"
proof -
  have "pt = pageTable m" using res by (rule Find_table)
  with res f pin removed show ?thesis
    by (simp add: DeletePage_def page_at_def set_page_def GetPinCount_def ResetMemory_def Let_def)
qed

text \<open>
  The frame of the deleted page is on the free list and in the LRU set at once: the next
  \<open>NewPage\<close> takes it from the free list and pins it, and the one after that gets the same
  frame from the replacer while it is pinned.
\<close>

lemma deleted_frame_handed_out_twice:
  "\<exists>m1 m2.
     NewPage deleted_pool INVALID_PAGE_ID = Done (Some 0, 1, m1) \<and>
     pin_count' (pages m1 ! 0) = 1 \<and> freeList m1 = [] \<and>
     NewPage m1 INVALID_PAGE_ID = Done (Some 0, 2, m2)"
  by (simp add: pool_defs lru_defs hash_defs fixture_defs)

text \<open>
  C5. The claim fails on the code: page 0 of \<open>idle_pool\<close> is resident with pin count 0 and
  its frame is in the LRU set. \<open>DeletePage(0)\<close> returns true, takes 0 out of the page table,
  clears the dirty flag, zeroes the buffer, appends the frame to the free list and calls
  \<open>DeallocatePage(0)\<close>; but the frame is still in the LRU set (\<open>Size\<close> is 1) and its stored
  page id is still 0, not \<open>INVALID_PAGE_ID\<close>.
\<close>

theorem DeletePage_keeps_LRU_entry_and_page_id:
  "DeletePage idle_pool 0 = Done (True, deleted_pool) \<and>
   Size (replacer deleted_pool) = 1 \<and>
   map_of (map' (replacer deleted_pool)) (Some 0) = Some (Some 1) \<and>
   freeList deleted_pool = [Some 0] \<and>
   page_id' (pages deleted_pool ! 0) = 0 \<and>
   page_id' (pages deleted_pool ! 0) \<noteq> INVALID_PAGE_ID"
  by (simp add: pool_defs lru_defs hash_defs fixture_defs)

text \<open>
  C6. For a page id resident in the page table whose frame has a pin count above zero,
  \<open>DeletePage\<close> returns false and the pool after the call is the pool before it: the page
  table, the free list, the LRU set, every frame and the disk manager with the calls it
  received, so \<open>DeallocatePage\<close> was not called.
\<close>

theorem DeletePage_pinned:
  assumes res: "Find (pageTable m) page_id None = Done (True, Some f, pt)"
    and f: "f < length (pages m)"
    and pin: "pin_count' (pages m ! f) > 0"
  shows "DeletePage m page_id = Done (False, m)"
proof -
  have "pt = pageTable m" using res by (rule Find_table)
  with res f pin show ?thesis
    by (simp add: DeletePage_def page_at_def GetPinCount_def)
qed

theorem DeletePage_pinned_witness:
  "DeletePage fresh_pool 0 = Done (False, fresh_pool) \<and>
   calls (diskManager fresh_pool) = [Allocated 0]"
proof -
  have res: "Find (pageTable fresh_pool) 0 None = Done (True, Some 0, pageTable fresh_pool)"
    by (simp add: hash_defs fixture_defs)
  have f: "0 < length (pages fresh_pool)"
    by (simp add: fixture_defs)
  have pin: "pin_count' (pages fresh_pool ! 0) > 0"
    by (simp add: fixture_defs)
  have "calls (diskManager fresh_pool) = [Allocated 0]"
    by (simp add: fixture_defs)
  with DeletePage_pinned [OF res f pin] show ?thesis by simp
qed

subsection \<open>\<open>FlushPage\<close>\<close>

text \<open>
  C7. \<open>FlushPage\<close> returns false, with the pool as it was, for \<open>INVALID_PAGE_ID\<close> and for
  an id that \<open>Find\<close> on the page table does not find; a call that returns gives false in
  these two cases only. For an id resident with a frame of the pool it returns true, and
  the pool after the call is the pool before it but for the disk manager, which has
  received \<open>WritePage\<close> with the id and the frame's buffer: the dirty flag and everything
  else are as before. A second call then returns true again and changes nothing but the
  record of calls, to which it adds the same write: the pool and the bytes on the disk are
  those after the first call.
\<close>

theorem FlushPage_correct:
  "(page_id = INVALID_PAGE_ID \<longrightarrow> FlushPage m page_id = Done (False, m)) \<and>
   (page_id \<noteq> INVALID_PAGE_ID \<longrightarrow>
    Find (pageTable m) page_id None = Done (False, tar, pt) \<longrightarrow>
      FlushPage m page_id = Done (False, m)) \<and>
   (page_id \<noteq> INVALID_PAGE_ID \<longrightarrow>
    Find (pageTable m) page_id None = Done (True, Some f, pt) \<longrightarrow> f < length (pages m) \<longrightarrow>
      FlushPage m page_id =
        Done (True,
          m\<lparr>diskManager := WritePage (diskManager m) page_id (data' (pages m ! f))\<rparr>) \<and>
      FlushPage
          (m\<lparr>diskManager := WritePage (diskManager m) page_id (data' (pages m ! f))\<rparr>) page_id =
        Done (True,
          m\<lparr>diskManager := (WritePage (diskManager m) page_id (data' (pages m ! f)))
            \<lparr>calls := calls (diskManager m) @
               [Written page_id (data' (pages m ! f)), Written page_id (data' (pages m ! f))]\<rparr>\<rparr>)) \<and>
   (FlushPage m page_id = Done (ok, m') \<longrightarrow>
      (\<not> ok \<longleftrightarrow>
         page_id = INVALID_PAGE_ID \<or>
         (\<exists>tar. Find (pageTable m) page_id None = Done (False, tar, pageTable m))))"
proof -
  have inv: "page_id = INVALID_PAGE_ID \<Longrightarrow> FlushPage m page_id = Done (False, m)"
    by (simp add: FlushPage_def)
  have absent: "FlushPage m page_id = Done (False, m)"
    if "page_id \<noteq> INVALID_PAGE_ID" "Find (pageTable m) page_id None = Done (False, tar, pt)"
  proof -
    have "pt = pageTable m" using that(2) by (rule Find_table)
    with that show ?thesis by (simp add: FlushPage_def)
  qed
  have found: "FlushPage m page_id =
        Done (True,
          m\<lparr>diskManager := WritePage (diskManager m) page_id (data' (pages m ! f))\<rparr>) \<and>
      FlushPage
          (m\<lparr>diskManager := WritePage (diskManager m) page_id (data' (pages m ! f))\<rparr>) page_id =
        Done (True,
          m\<lparr>diskManager := (WritePage (diskManager m) page_id (data' (pages m ! f)))
            \<lparr>calls := calls (diskManager m) @
               [Written page_id (data' (pages m ! f)), Written page_id (data' (pages m ! f))]\<rparr>\<rparr>)"
    if "page_id \<noteq> INVALID_PAGE_ID" "Find (pageTable m) page_id None = Done (True, Some f, pt)"
      "f < length (pages m)"
  proof -
    have "pt = pageTable m" using that(2) by (rule Find_table)
    with that show ?thesis
      by (simp add: FlushPage_def page_at_def GetData_def WritePage_def)
  qed
  have iff: "\<not> ok \<longleftrightarrow>
         page_id = INVALID_PAGE_ID \<or>
         (\<exists>tar. Find (pageTable m) page_id None = Done (False, tar, pageTable m))"
    if ret: "FlushPage m page_id = Done (ok, m')"
  proof (cases "page_id = INVALID_PAGE_ID")
    case True
    with ret show ?thesis by (simp add: FlushPage_def)
  next
    case False
    with ret obtain fnd tar pt' where
      fnd: "Find (pageTable m) page_id None = Done (fnd, tar, pt')"
      by (auto simp: FlushPage_def andThen_Done)
    have pt': "pt' = pageTable m" using fnd by (rule Find_table)
    from ret fnd pt' False show ?thesis
      by (cases fnd) (auto simp: FlushPage_def andThen_Done)
  qed
  from inv absent found iff show ?thesis by blast
qed

theorem FlushPage_correct_witness:
  "FlushPage dirty_pool INVALID_PAGE_ID = Done (False, dirty_pool) \<and>
   FlushPage dirty_pool 7 = Done (False, dirty_pool) \<and>
   FlushPage dirty_pool 0 =
     Done (True, dirty_pool\<lparr>diskManager := WritePage (diskManager dirty_pool) 0 aa4\<rparr>) \<and>
   is_dirty' (pages (dirty_pool\<lparr>diskManager := WritePage (diskManager dirty_pool) 0 aa4\<rparr>) ! 0) \<and>
   FlushPage (dirty_pool\<lparr>diskManager := WritePage (diskManager dirty_pool) 0 aa4\<rparr>) 0 =
     Done (True, dirty_pool\<lparr>diskManager := (WritePage (diskManager dirty_pool) 0 aa4)
       \<lparr>calls := [Allocated 0, Written 0 aa4, Written 0 aa4]\<rparr>\<rparr>)"
proof -
  have absent: "Find (pageTable dirty_pool) 7 None = Done (False, None, pageTable dirty_pool)"
    and res: "Find (pageTable dirty_pool) 0 None = Done (True, Some 0, pageTable dirty_pool)"
    by (simp_all add: hash_defs fixture_defs)
  have f: "0 < length (pages dirty_pool)"
    and ids: "(7::int) \<noteq> INVALID_PAGE_ID" "(0::int) \<noteq> INVALID_PAGE_ID"
    and buf: "data' (pages dirty_pool ! 0) = aa4"
    and dirty: "is_dirty' (pages dirty_pool ! 0)"
    and start: "calls (diskManager dirty_pool) = [Allocated 0]"
    by (simp_all add: fixture_defs INVALID_PAGE_ID_def)
  have a: "FlushPage dirty_pool INVALID_PAGE_ID = Done (False, dirty_pool)"
    using FlushPage_correct [of INVALID_PAGE_ID dirty_pool, THEN conjunct1] by simp
  have b: "FlushPage dirty_pool 7 = Done (False, dirty_pool)"
    using FlushPage_correct [of 7 dirty_pool, THEN conjunct2, THEN conjunct1, rule_format,
        OF ids(1) absent] .
  note c = FlushPage_correct [of 0 dirty_pool, THEN conjunct2, THEN conjunct2, THEN conjunct1,
        rule_format, OF ids(2) res f]
  from a b c buf dirty start show ?thesis by simp
qed

end
